theory Spec2Isabelle
  imports Main "HOL-Library.Word"
begin

section \<open>Data model of cmd/ct-sql/main.go\<close>

text \<open>
  Go's \<open>uint64\<close> is a 64-bit word: \<open>+\<close> and \<open>-\<close> wrap around, \<open><\<close> and \<open>\<le>\<close> compare
  the unsigned values. The conversions \<open>int64(index)\<close> and \<open>uint64(ent.Index)\<close> of the
  source keep the bit pattern, so an \<open>int64\<close> that is only stored, passed on and compared
  for equality after conversion is kept as the same 64-bit word.
\<close>

type_synonym uint64 = "64 word"

text \<open>
  Errors. An error value produced by a collaborator (the log client, the database, the
  importer) is opaque to main.go and is kept as its message, \<open>External msg\<close>; the other
  constructors are the errors that main.go builds itself with \<open>fmt.Errorf\<close>.
\<close>

datatype error =
    External string
  | NoOutputChannel
  | SignalCaught
  | IndexMismatch uint64 uint64
  | BothOffsets

text \<open>
  \<open>ct.LogEntry\<close>, reduced to the two fields main.go reads: \<open>ent.Index\<close> and
  \<open>ent.Leaf.TimestampedEntry.Timestamp\<close>.
\<close>

record LogEntry =
  Index :: uint64
  Timestamp :: uint64

text \<open>\<open>type CtLogEntry struct { LogEntry *ct.LogEntry; LogID int }\<close>\<close>

record CtLogEntry =
  Entry :: LogEntry
  EntryLogID :: int

text \<open>
  The state row of one log (\<open>sqldb.CertificateLog\<close>, as returned by \<open>GetLogState\<close>):
  main.go reads \<open>LogID\<close> and \<open>MaxEntry\<close> and writes \<open>MaxEntry\<close> and \<open>LastEntryTime\<close>.
  \<open>LastEntryTime\<close> is a \<open>time.Time\<close>; its type is left open as \<open>'t\<close>.
\<close>

record 't CertificateLog =
  LogID :: int
  MaxEntry :: uint64
  LastEntryTime :: 't

text \<open>\<open>ct.SignedTreeHead\<close>, reduced to the fields main.go reads.\<close>

record SignedTreeHead =
  TreeSize :: uint64
  SthTimestamp :: uint64

text \<open>The configuration values (\<open>*config.Offset\<close> and so on) that the pipeline reads.\<close>

record CTConfig =
  Offset :: uint64
  OffsetByte :: uint64
  Limit :: uint64
  NumThreads :: int

section \<open>DownloadCTRangeToChannel\<close>

text \<open>
  The \<open>select\<close> statement in the dispatch loop has four cases. Which one runs depends on
  the signal channel, the workers and the ticker, so the model takes the outcome of the
  \<open>n\<close>-th \<open>select\<close> of a pass from a schedule \<open>nat \<Rightarrow> select_case\<close>.
\<close>

datatype select_case =
    SigReceived      \<comment> \<open>\<open>case sig := <-sigChan\<close>\<close>
  | EntrySent        \<comment> \<open>\<open>case ld.EntryChan <- CtLogEntry{&ent, logID}\<close>\<close>
  | ProgressTick     \<comment> \<open>\<open>case <-progressTicker.C\<close>\<close>
  | ChannelFull      \<comment> \<open>\<open>default\<close>\<close>

text \<open>
  The remote log: the answer of the \<open>n\<close>-th call \<open>ctLog.GetEntries(int64(index), int64(max))\<close>
  of a pass (counted from 0), an error message or a list of entries. Nothing is assumed
  of the answer: it may change from call to call, hold entries with any index and be of
  any length.
\<close>

type_synonym feed = "nat \<Rightarrow> uint64 \<Rightarrow> uint64 \<Rightarrow> string + LogEntry list"

text \<open>
  The local variables of the function, together with what it has done so far: the entries
  handed to \<open>ld.EntryChan\<close>, in order, the windows requested from \<open>GetEntries\<close>, in
  order, and the number of \<open>select\<close> statements executed.
\<close>

record fetch_state =
  index :: uint64
  lastTime :: uint64
  sent :: "CtLogEntry list"
  requests :: "(uint64 \<times> uint64) list"
  selects :: nat

text \<open>The three values returned: \<open>(uint64, uint64, error)\<close>.\<close>

datatype fetch_result = Return uint64 uint64 "error option"

fun ret_index :: "fetch_result \<Rightarrow> uint64" where
  "ret_index (Return i t e) = i"

fun ret_time :: "fetch_result \<Rightarrow> uint64" where
  "ret_time (Return i t e) = t"

fun ret_err :: "fetch_result \<Rightarrow> error option" where
  "ret_err (Return i t e) = e"

text \<open>
  The inner loop \<open>for arrayOffset := 0; arrayOffset < len(rawEnts); { ... }\<close>, over the
  entries from \<open>arrayOffset\<close> on. Every iteration executes one \<open>select\<close>. The loop has no
  bound of its own (the ticker and the default case leave \<open>arrayOffset\<close> unchanged), so the
  model takes fuel, one unit per iteration: \<open>None\<close> means that the fuel did not suffice.
  The result \<open>Some (Some r, st)\<close> is a \<open>return\<close> from inside the loop, \<open>Some (None, st)\<close> the
  normal end of the loop.
\<close>

fun send_loop ::
  "nat \<Rightarrow> (nat \<Rightarrow> select_case) \<Rightarrow> int \<Rightarrow> LogEntry list \<Rightarrow> fetch_state
    \<Rightarrow> (fetch_result option \<times> fetch_state) option" where
  "send_loop fuel sel logID [] st = Some (None, st)"
| "send_loop 0 sel logID (ent # rest) st = None"
| "send_loop (Suc fuel) sel logID (ent # rest) st =
     (let st1 = st\<lparr>selects := Suc (selects st)\<rparr> in
      case sel (selects st) of
        SigReceived \<Rightarrow>
          Some (Some (Return (index st) (lastTime st) (Some SignalCaught)), st1)
      | EntrySent \<Rightarrow>
          (let st2 = st1\<lparr>sent := sent st @ [\<lparr>Entry = ent, EntryLogID = logID\<rparr>],
                         lastTime := Timestamp ent\<rparr> in
           if Index ent \<noteq> index st
           then Some (Some (Return (index st) (lastTime st2)
                        (Some (IndexMismatch (index st) (Index ent)))), st2)
           else send_loop fuel sel logID rest (st2\<lparr>index := index st + 1\<rparr>))
      | ProgressTick \<Rightarrow> send_loop fuel sel logID (ent # rest) st1
      | ChannelFull \<Rightarrow> send_loop fuel sel logID (ent # rest) st1)"

text \<open>
  The upper end of the window requested by one call:
  \<open>max := index + 1024; if max >= upTo { max = upTo - 1 }\<close>.
\<close>

definition window_max :: "uint64 \<Rightarrow> uint64 \<Rightarrow> uint64" where
  "window_max i upTo = (let max = i + 1024 in if max \<ge> upTo then upTo - 1 else max)"

text \<open>
  The outer loop \<open>for index < upTo { ... }\<close> and the final \<open>return index, lastTime, nil\<close>.
  One unit of fuel per iteration; the inner loop of an iteration gets what is left.
\<close>

fun download_loop ::
  "nat \<Rightarrow> feed \<Rightarrow> (nat \<Rightarrow> select_case) \<Rightarrow> int \<Rightarrow> uint64 \<Rightarrow> fetch_state
    \<Rightarrow> (fetch_result \<times> fetch_state) option" where
  "download_loop 0 getEntries sel logID upTo st =
     (if index st < upTo then None
      else Some (Return (index st) (lastTime st) None, st))"
| "download_loop (Suc fuel) getEntries sel logID upTo st =
     (if index st < upTo then
        (let max = window_max (index st) upTo;
             st1 = st\<lparr>requests := requests st @ [(index st, max)]\<rparr> in
         case getEntries (length (requests st)) (index st) max of
           Inl err \<Rightarrow> Some (Return (index st) (lastTime st) (Some (External err)), st1)
         | Inr rawEnts \<Rightarrow>
             (case send_loop fuel sel logID rawEnts st1 of
                None \<Rightarrow> None
              | Some (Some r, st2) \<Rightarrow> Some (r, st2)
              | Some (None, st2) \<Rightarrow> download_loop fuel getEntries sel logID upTo st2))
      else Some (Return (index st) (lastTime st) None, st))"

definition fetch_init :: "uint64 \<Rightarrow> fetch_state" where
  "fetch_init start = \<lparr>index = start, lastTime = 0, sent = [], requests = [], selects = 0\<rparr>"

text \<open>
  The whole function. \<open>hasChan\<close> is \<open>ld.EntryChan != nil\<close>. The progress display and the
  backoff timer do not influence the values returned or the entries sent and are left out.
\<close>

definition DownloadCTRangeToChannel ::
  "nat \<Rightarrow> bool \<Rightarrow> feed \<Rightarrow> (nat \<Rightarrow> select_case) \<Rightarrow> int \<Rightarrow> uint64 \<Rightarrow> uint64
    \<Rightarrow> (fetch_result \<times> fetch_state) option" where
  "DownloadCTRangeToChannel fuel hasChan getEntries sel logID start upTo =
     (if \<not> hasChan then Some (Return start 0 (Some NoOutputChannel), fetch_init start)
      else download_loop fuel getEntries sel logID upTo (fetch_init start))"

section \<open>Download\<close>

text \<open>
  What \<open>Download\<close> gets from its collaborators during one pass: the results of
  \<open>client.New\<close>, \<open>ctLog.GetSTH\<close>, \<open>url.Parse\<close> and \<open>ld.Database.GetLogState\<close>, whether
  \<open>ld.EntryChan\<close> is not nil, the answers of \<open>GetEntries\<close>, the outcomes of the \<open>select\<close>
  statements, and the conversion \<open>utils.Uint64ToTimestamp\<close>.
\<close>

record 't world =
  NewClient :: "string option"
  GetSTH :: "string + SignedTreeHead"
  ParseURL :: "string option"
  GetLogState :: "string + 't CertificateLog"
  HasChan :: bool
  GetEntries :: feed
  Select :: "nat \<Rightarrow> select_case"
  Uint64ToTimestamp :: "uint64 \<Rightarrow> 't"

text \<open>
  How a pass ends: \<open>Refused\<close> is one of the early returns that only write a log line
  (\<open>None\<close> for the \<open>offsetByte\<close> refusal, otherwise the collaborator's error message),
  \<open>NothingToDo\<close> the return at \<open>origCount == sth.TreeSize\<close>, and \<open>Saved logObj err\<close> the
  end of the function: \<open>logObj\<close> is the argument of \<open>SaveLogState\<close> and \<open>err\<close> the error
  of the "Download halting" log line, if any.
\<close>

datatype 't pass_outcome =
    Refused "string option"
  | NothingToDo
  | Saved "'t CertificateLog" "error option"

text \<open>
  \<open>if *config.Offset > 0 { origCount = *config.Offset } else { origCount = logObj.MaxEntry }\<close>.
  (The test \<open>err != nil\<close> in the else branch reads an \<open>err\<close> that is nil there.)
\<close>

definition origCount :: "CTConfig \<Rightarrow> 't CertificateLog \<Rightarrow> uint64" where
  "origCount config logObj =
     (if Offset config > 0 then Offset config else MaxEntry logObj)"

text \<open>
  \<open>endPos := sth.TreeSize;
  if *config.Limit > 0 && endPos > origCount+*config.Limit { endPos = origCount + *config.Limit }\<close>
\<close>

definition endPos :: "CTConfig \<Rightarrow> SignedTreeHead \<Rightarrow> uint64 \<Rightarrow> uint64" where
  "endPos config sth orig =
     (if Limit config > 0 \<and> TreeSize sth > orig + Limit config
      then orig + Limit config else TreeSize sth)"

text \<open>
  \<open>logObj.MaxEntry = finalIndex;
  if finalTime != 0 { logObj.LastEntryTime = utils.Uint64ToTimestamp(finalTime) }\<close>
\<close>

definition finalize ::
  "(uint64 \<Rightarrow> 't) \<Rightarrow> 't CertificateLog \<Rightarrow> uint64 \<Rightarrow> uint64 \<Rightarrow> 't CertificateLog" where
  "finalize toTime logObj finalIndex finalTime =
     (let logObj1 = logObj\<lparr>MaxEntry := finalIndex\<rparr> in
      if finalTime \<noteq> 0 then logObj1\<lparr>LastEntryTime := toTime finalTime\<rparr> else logObj1)"

text \<open>
  The function from \<open>var origCount uint64\<close> on, for the \<open>sth\<close> and \<open>logObj\<close> obtained:
  the result is the outcome and the entries handed to the channel.
\<close>

definition run_pass ::
  "nat \<Rightarrow> CTConfig \<Rightarrow> 't world \<Rightarrow> SignedTreeHead \<Rightarrow> 't CertificateLog
    \<Rightarrow> ('t pass_outcome \<times> CtLogEntry list) option" where
  "run_pass fuel config w sth logObj =
     (let orig = origCount config logObj in
      if orig = TreeSize sth then Some (NothingToDo, [])
      else
        (case DownloadCTRangeToChannel fuel (HasChan w) (GetEntries w) (Select w)
                (LogID logObj) orig (endPos config sth orig) of
           None \<Rightarrow> None
         | Some (Return finalIndex finalTime err, st) \<Rightarrow>
             Some (Saved (finalize (Uint64ToTimestamp w) logObj finalIndex finalTime) err,
                   sent st)))"

definition Download ::
  "nat \<Rightarrow> CTConfig \<Rightarrow> 't world \<Rightarrow> ('t pass_outcome \<times> CtLogEntry list) option" where
  "Download fuel config w =
     (if OffsetByte config > 0 then Some (Refused None, [])
      else
        (case NewClient w of
           Some err \<Rightarrow> Some (Refused (Some err), [])
         | None \<Rightarrow>
             (case GetSTH w of
                Inl err \<Rightarrow> Some (Refused (Some err), [])
              | Inr sth \<Rightarrow>
                  (case ParseURL w of
                     Some err \<Rightarrow> Some (Refused (Some err), [])
                   | None \<Rightarrow>
                       (case GetLogState w of
                          Inl err \<Rightarrow> Some (Refused (Some err), [])
                        | Inr logObj \<Rightarrow> run_pass fuel config w sth logObj)))))"

section \<open>insertCTWorker\<close>

text \<open>
  A worker ranges over the entries it receives from the channel and calls
  \<open>ld.Database.InsertCTEntry\<close> on each; an error is logged with the entry's index. The
  database is a state \<open>'db\<close> that the insert may change. The worker's record keeps the
  entries it has called the insert for and the log lines it has written.
\<close>

record 'db worker_state =
  database :: 'db
  attempted :: "CtLogEntry list"
  logged :: "(uint64 \<times> string) list"

fun insertCTWorker ::
  "('db \<Rightarrow> CtLogEntry \<Rightarrow> string option \<times> 'db) \<Rightarrow> CtLogEntry list \<Rightarrow> 'db worker_state
    \<Rightarrow> 'db worker_state" where
  "insertCTWorker insertCTEntry [] ws = ws"
| "insertCTWorker insertCTEntry (ep # eps) ws =
     (case insertCTEntry (database ws) ep of
        (err, db') \<Rightarrow>
          (let ws1 = ws\<lparr>database := db', attempted := attempted ws @ [ep]\<rparr>;
               ws2 = (case err of
                        None \<Rightarrow> ws1
                      | Some e \<Rightarrow> ws1\<lparr>logged := logged ws1 @ [(Index (Entry ep), e)]\<rparr>)
           in insertCTWorker insertCTEntry eps ws2))"

definition worker_init :: "'db \<Rightarrow> 'db worker_state" where
  "worker_init d = \<lparr>database = d, attempted = [], logged = []\<rparr>"

text \<open>
  One pass of the downloader followed by a worker that receives every entry the pass has
  handed to the channel.
\<close>

definition pass_with_worker ::
  "nat \<Rightarrow> CTConfig \<Rightarrow> 't world \<Rightarrow> ('db \<Rightarrow> CtLogEntry \<Rightarrow> string option \<times> 'db) \<Rightarrow> 'db
    \<Rightarrow> ('t pass_outcome \<times> 'db worker_state) option" where
  "pass_with_worker fuel config w insertCTEntry d =
     (case Download fuel config w of
        None \<Rightarrow> None
      | Some (out, entries) \<Rightarrow>
          Some (out, insertCTWorker insertCTEntry entries (worker_init d)))"

section \<open>processImporter\<close>

text \<open>\<open>censysdata.CensysEntry\<close>, reduced to the fields main.go reads.\<close>

record CensysEntry =
  EntryOffset :: uint64
  Valid_nss :: bool

text \<open>
  The interface \<open>censysdata.Importer\<close> over an importer state \<open>'s\<close>. \<open>NextEntry\<close> returns a
  pointer (nil is \<open>None\<close>) and an error, \<open>Size\<close> a number and an error.
\<close>

record 's Importer =
  SeekLine :: "uint64 \<Rightarrow> 's \<Rightarrow> string option \<times> 's"
  SeekByte :: "uint64 \<Rightarrow> 's \<Rightarrow> string option \<times> 's"
  NextEntry :: "'s \<Rightarrow> (CensysEntry option \<times> string option) \<times> 's"
  Size :: "'s \<Rightarrow> (uint64 \<times> string option) \<times> 's"
  ByteOffset :: "'s \<Rightarrow> uint64"

text \<open>What \<open>processImporter\<close> does, in the order it does it.\<close>

datatype import_event =
    WgAdd
  | StartDisplay
  | StartWorker                          \<comment> \<open>\<open>go insertCensysWorker(entryChan, db, wg)\<close>\<close>
  | CallSeekLine uint64
  | CallSeekByte uint64
  | LogStart uint64 uint64
  | CallNextEntry
  | CallSize
  | UpdateProgress uint64 uint64 uint64
  | SendEntry CensysEntry                \<comment> \<open>\<open>entryChan <- *ent\<close>\<close>
  | DisplayClose
  | WgDone
  | CloseEntryChan

type_synonym 's import_result = "error option \<times> import_event list \<times> 's"

text \<open>
  The loop \<open>for count := uint64(0); ; count++ { ... }\<close>, one unit of fuel per iteration.
  \<open>entryChan\<close> is unbuffered: the send completes only when a worker receives, so it never
  completes when no worker was started.
\<close>

fun import_loop ::
  "nat \<Rightarrow> CTConfig \<Rightarrow> 's Importer \<Rightarrow> int \<Rightarrow> uint64 \<Rightarrow> uint64 \<Rightarrow> uint64
    \<Rightarrow> import_event list \<Rightarrow> 's \<Rightarrow> 's import_result option" where
  "import_loop 0 config imp numWorkers startOffset count maxOffset evs s =
     (if Limit config > 0 \<and> count \<ge> Limit config then Some (None, evs, s) else None)"
| "import_loop (Suc fuel) config imp numWorkers startOffset count maxOffset evs s =
     (if Limit config > 0 \<and> count \<ge> Limit config then Some (None, evs, s)
      else
        (case NextEntry imp s of
           ((None, err), s1) \<Rightarrow> Some (map_option External err, evs @ [CallNextEntry], s1)
         | ((Some ent, Some err), s1) \<Rightarrow> Some (Some (External err), evs @ [CallNextEntry], s1)
         | ((Some ent, None), s1) \<Rightarrow>
             (let evs1 = evs @ [CallNextEntry] in
              if count mod 128 = 0 then
                (case (if maxOffset < 1
                       then (case Size imp s1 of ((sz, err), s2) \<Rightarrow> (sz, err, evs1 @ [CallSize], s2))
                       else (maxOffset, None, evs1, s1)) of
                   (maxOffset', Some err, evs2, s2) \<Rightarrow> Some (Some (External err), evs2, s2)
                 | (maxOffset', None, evs2, s2) \<Rightarrow>
                     (if numWorkers \<le> 0 then None
                      else import_loop fuel config imp numWorkers startOffset (count + 1) maxOffset'
                             (evs2 @ [UpdateProgress startOffset (EntryOffset ent) maxOffset',
                                      SendEntry ent]) s2))
              else
                (if numWorkers \<le> 0 then None
                 else import_loop fuel config imp numWorkers startOffset (count + 1) maxOffset
                        (evs1 @ [SendEntry ent]) s1))))"

text \<open>
  The function. \<open>numCPU\<close> is \<open>runtime.NumCPU()\<close>. The three deferred calls run at every
  return, last deferred first: \<open>display.Close()\<close>, \<open>wg.Done()\<close>, \<open>close(entryChan)\<close>.
\<close>

definition processImporter ::
  "nat \<Rightarrow> CTConfig \<Rightarrow> int \<Rightarrow> 's Importer \<Rightarrow> 's \<Rightarrow> 's import_result option" where
  "processImporter fuel config numCPU imp s =
     (let deferred = (\<lambda>r. case r of (err, evs, s') \<Rightarrow>
                         (err, evs @ [DisplayClose, WgDone, CloseEntryChan], s'));
          numWorkers = NumThreads config * numCPU;
          evs0 = [WgAdd, StartDisplay] @ replicate (nat numWorkers) StartWorker;
          startOffset = OffsetByte config
      in
      if Offset config > 0 \<and> OffsetByte config > 0
      then Some (deferred (Some BothOffsets, evs0, s))
      else
        (case (if Offset config > 0
               then (case SeekLine imp (Offset config) s of
                       (err, s1) \<Rightarrow> (err, evs0 @ [CallSeekLine (Offset config)], s1))
               else (None, evs0, s)) of
           (Some err, evs1, s1) \<Rightarrow> Some (deferred (Some (External err), evs1, s1))
         | (None, evs1, s1) \<Rightarrow>
             (case (if OffsetByte config > 0
                    then (case SeekByte imp (OffsetByte config) s1 of
                            (err, s2) \<Rightarrow> (err, evs1 @ [CallSeekByte (OffsetByte config)], s2))
                    else (None, evs1, s1)) of
                (Some err, evs2, s2) \<Rightarrow> Some (deferred (Some (External err), evs2, s2))
              | (None, evs2, s2) \<Rightarrow>
                  map_option deferred
                    (import_loop fuel config imp numWorkers startOffset 0 0
                       (evs2 @ [LogStart (ByteOffset imp s2) (Limit config)]) s2))))"

section \<open>Predicates used in the properties\<close>

text \<open>
  \<open>consecutive_from start eps\<close>: the entries carry the indices \<open>start\<close>, \<open>start + 1\<close>, ...
  in this order (in 64-bit arithmetic). \<open>last_time\<close> is the timestamp of the last entry of
  a list, 0 for the empty list, the initial value of \<open>lastTime\<close>.
\<close>

definition consecutive_from :: "uint64 \<Rightarrow> CtLogEntry list \<Rightarrow> bool" where
  "consecutive_from start eps \<longleftrightarrow>
     map (\<lambda>ep. Index (Entry ep)) eps = map (\<lambda>k. start + of_nat k) [0..<length eps]"

definition last_time :: "CtLogEntry list \<Rightarrow> uint64" where
  "last_time eps = (if eps = [] then 0 else Timestamp (Entry (last eps)))"

text \<open>
  An index-mismatch return is the only one that happens after a send whose entry is not
  counted in \<open>index\<close>: \<open>counted e eps\<close> is the list of the entries sent without that last
  one.
\<close>

fun is_mismatch :: "error option \<Rightarrow> bool" where
  "is_mismatch (Some (IndexMismatch a b)) = True"
| "is_mismatch _ = False"

definition counted :: "error option \<Rightarrow> CtLogEntry list \<Rightarrow> CtLogEntry list" where
  "counted e eps = (if is_mismatch e then butlast eps else eps)"

text \<open>
  The loop invariant of \<open>DownloadCTRangeToChannel\<close> and what it gives at a return.
\<close>

definition fetch_inv :: "uint64 \<Rightarrow> fetch_state \<Rightarrow> bool" where
  "fetch_inv start st \<longleftrightarrow>
     consecutive_from start (sent st) \<and> index st = start + of_nat (length (sent st))
     \<and> lastTime st = last_time (sent st)"

definition returned_ok :: "uint64 \<Rightarrow> fetch_result \<Rightarrow> fetch_state \<Rightarrow> bool" where
  "returned_ok start r st \<longleftrightarrow>
     ret_time r = last_time (sent st)
     \<and> consecutive_from start (counted (ret_err r) (sent st))
     \<and> ret_index r = start + of_nat (length (counted (ret_err r) (sent st)))
     \<and> (is_mismatch (ret_err r) \<longrightarrow>
          sent st \<noteq> [] \<and> Index (Entry (last (sent st))) \<noteq> ret_index r
          \<and> ret_err r = Some (IndexMismatch (ret_index r) (Index (Entry (last (sent st))))))"



section \<open>Example inputs\<close>

text \<open>
  Concrete configurations, log states, feeds, schedules and collaborators, on which the
  properties below are evaluated.
\<close>

definition config_of :: "uint64 \<Rightarrow> uint64 \<Rightarrow> uint64 \<Rightarrow> CTConfig" where
  "config_of off offByte lim = \<lparr>Offset = off, OffsetByte = offByte, Limit = lim, NumThreads = 1\<rparr>"

definition stored_log :: "uint64 \<Rightarrow> uint64 \<Rightarrow> uint64 CertificateLog" where
  "stored_log maxEntry lastEntryTime = \<lparr>LogID = 1, MaxEntry = maxEntry, LastEntryTime = lastEntryTime\<rparr>"

definition example_world :: "feed \<Rightarrow> (nat \<Rightarrow> select_case) \<Rightarrow> uint64 CertificateLog \<Rightarrow> uint64 \<Rightarrow> uint64 world" where
  "example_world g sel logObj treeSize =
     \<lparr>NewClient = None, GetSTH = Inr \<lparr>TreeSize = treeSize, SthTimestamp = 0\<rparr>, ParseURL = None,
      GetLogState = Inr logObj,
      HasChan = True, GetEntries = g, Select = sel, Uint64ToTimestamp = (\<lambda>t. t)\<rparr>"

definition entry_at :: "uint64 \<Rightarrow> uint64 \<Rightarrow> CtLogEntry" where
  "entry_at i t = \<lparr>Entry = \<lparr>Index = i, Timestamp = t\<rparr>, EntryLogID = 1\<rparr>"

definition one_entry_feed :: feed where
  "one_entry_feed n lo hi = Inr [\<lparr>Index = lo, Timestamp = 1000 + lo\<rparr>]"

definition window_feed :: feed where
  "window_feed n lo hi =
     (if lo \<le> hi
      then Inr (map (\<lambda>k. \<lparr>Index = lo + of_nat k, Timestamp = 1000 + lo + of_nat k\<rparr>)
                  [0..<Suc (unat (hi - lo))])
      else Inl ''start > end'')"

definition skipping_feed :: feed where
  "skipping_feed n lo hi = Inr [\<lparr>Index = lo, Timestamp = 1000\<rparr>, \<lparr>Index = lo + 5, Timestamp = 2000\<rparr>]"


definition zero_time_feed :: feed where
  "zero_time_feed n lo hi = Inr [\<lparr>Index = lo, Timestamp = 0\<rparr>]"


definition always_sent :: "nat \<Rightarrow> select_case" where
  "always_sent n = EntrySent"

definition busy_workers :: "nat \<Rightarrow> select_case" where
  "busy_workers n = (if n mod 3 = 0 then ChannelFull else if n mod 3 = 1 then ProgressTick else EntrySent)"

definition failing_insert :: "nat \<Rightarrow> CtLogEntry \<Rightarrow> string option \<times> nat" where
  "failing_insert d ep = (if Index (Entry ep) = 1 then Some ''duplicate'' else None, Suc d)"

definition example_importer :: "nat Importer" where
  "example_importer =
     \<lparr>SeekLine = (\<lambda>n s. (None, s)), SeekByte = (\<lambda>n s. (None, s)),
      NextEntry = (\<lambda>s. ((None, None), s)), Size = (\<lambda>s. ((0, None), s)),
      ByteOffset = (\<lambda>s. 0)\<rparr>"

section \<open>Properties of the fetch loop\<close>

subsection \<open>The invariant\<close>

lemma download_loop_done:
  "\<not> index st < upTo \<Longrightarrow>
   download_loop fuel getEntries sel logID upTo st = Some (Return (index st) (lastTime st) None, st)"
  by (cases fuel) simp_all

lemma consecutive_from_Nil: "consecutive_from start []"
  by (simp add: consecutive_from_def)

lemma consecutive_from_snoc:
  "consecutive_from start (eps @ [ep]) \<longleftrightarrow>
     consecutive_from start eps \<and> Index (Entry ep) = start + of_nat (length eps)"
  by (auto simp: consecutive_from_def)


lemma fetch_inv_init: "fetch_inv start (fetch_init start)"
  by (simp add: fetch_inv_def fetch_init_def consecutive_from_Nil last_time_def)

lemma fetch_inv_selects: "fetch_inv start (st\<lparr>selects := n\<rparr>) = fetch_inv start st"
  by (simp add: fetch_inv_def)

lemma fetch_inv_requests: "fetch_inv start (st\<lparr>requests := n\<rparr>) = fetch_inv start st"
  by (simp add: fetch_inv_def)

lemma fetch_inv_returned:
  "fetch_inv start st \<Longrightarrow> \<not> is_mismatch e \<Longrightarrow> returned_ok start (Return (index st) (lastTime st) e) st"
  by (simp add: fetch_inv_def returned_ok_def counted_def)

lemma fetch_inv_send:
  assumes "fetch_inv start st" and "Index ent = index st"
  shows "fetch_inv start (st\<lparr>selects := n, sent := sent st @ [\<lparr>Entry = ent, EntryLogID = logID\<rparr>],
                             lastTime := Timestamp ent, index := index st + 1\<rparr>)"
  using assms by (simp add: fetch_inv_def consecutive_from_snoc last_time_def)

lemma fetch_inv_mismatch:
  assumes "fetch_inv start st" and "Index ent \<noteq> index st"
  shows "returned_ok start
           (Return (index st) (Timestamp ent) (Some (IndexMismatch (index st) (Index ent))))
           (st\<lparr>selects := n, sent := sent st @ [\<lparr>Entry = ent, EntryLogID = logID\<rparr>],
               lastTime := Timestamp ent\<rparr>)"
  using assms by (simp add: fetch_inv_def returned_ok_def counted_def last_time_def)

lemma send_loop_inv:
  "send_loop fuel sel logID es st = Some (r, st') \<Longrightarrow> fetch_inv start st \<Longrightarrow>
   (case r of None \<Rightarrow> fetch_inv start st' | Some res \<Rightarrow> returned_ok start res st')"
proof (induction fuel sel logID es st rule: send_loop.induct)
  case (1 fuel sel logID st)
  then show ?case by simp
next
  case (2 sel logID ent rest st)
  then show ?case by simp
next
  case (3 fuel sel logID ent rest st)
  let ?st1 = "st\<lparr>selects := Suc (selects st)\<rparr>"
  have inv1: "fetch_inv start ?st1" using "3.prems"(2) by (simp add: fetch_inv_selects)
  show ?case
  proof (cases "sel (selects st)")
    case SigReceived
    with "3.prems" have "r = Some (Return (index st) (lastTime st) (Some SignalCaught))" "st' = ?st1"
      by (auto simp: Let_def)
    with inv1 fetch_inv_returned [of start ?st1 "Some SignalCaught"] show ?thesis by simp
  next
    case EntrySent
    show ?thesis
    proof (cases "Index ent = index st")
      case True
      with EntrySent "3.prems"(1) have run: "send_loop fuel sel logID rest
          (st\<lparr>selects := Suc (selects st), sent := sent st @ [\<lparr>Entry = ent, EntryLogID = logID\<rparr>],
              lastTime := Timestamp ent, index := index st + 1\<rparr>) = Some (r, st')"
        by (simp add: Let_def)
      from "3.IH"(1) [OF refl EntrySent refl _ run] True
           fetch_inv_send [OF "3.prems"(2) True]
      show ?thesis by simp
    next
      case False
      with EntrySent "3.prems"(1) have
        "r = Some (Return (index st) (Timestamp ent) (Some (IndexMismatch (index st) (Index ent))))"
        "st' = st\<lparr>selects := Suc (selects st), sent := sent st @ [\<lparr>Entry = ent, EntryLogID = logID\<rparr>],
              lastTime := Timestamp ent\<rparr>"
        by (auto simp: Let_def)
      with fetch_inv_mismatch [OF "3.prems"(2) False] show ?thesis by simp
    qed
  next
    case ProgressTick
    with "3.prems"(1) have run: "send_loop fuel sel logID (ent # rest) ?st1 = Some (r, st')"
      by (simp add: Let_def)
    from "3.IH"(2) [OF refl ProgressTick run inv1] show ?thesis .
  next
    case ChannelFull
    with "3.prems"(1) have run: "send_loop fuel sel logID (ent # rest) ?st1 = Some (r, st')"
      by (simp add: Let_def)
    from "3.IH"(3) [OF refl ChannelFull run inv1] show ?thesis .
  qed
qed

lemma download_loop_inv:
  "download_loop fuel getEntries sel logID upTo st = Some (r, st') \<Longrightarrow> fetch_inv start st \<Longrightarrow>
   returned_ok start r st'"
proof (induction fuel arbitrary: st)
  case 0
  then show ?case
    using fetch_inv_returned [of start st None] by (auto split: if_splits)
next
  case (Suc fuel)
  show ?case
  proof (cases "index st < upTo")
    case False
    with Suc.prems fetch_inv_returned [of start st None] show ?thesis by auto
  next
    case True
    let ?st1 = "st\<lparr>requests := requests st @ [(index st, window_max (index st) upTo)]\<rparr>"
    have inv1: "fetch_inv start ?st1" using Suc.prems(2) by (simp add: fetch_inv_requests)
    show ?thesis
    proof (cases "getEntries (length (requests st)) (index st) (window_max (index st) upTo)")
      case (Inl err)
      with True Suc.prems(1) have "r = Return (index st) (lastTime st) (Some (External err))" "st' = ?st1"
        by (auto simp: Let_def)
      with fetch_inv_returned [OF inv1, of "Some (External err)"] show ?thesis by simp
    next
      case (Inr rawEnts)
      show ?thesis
      proof (cases "send_loop fuel sel logID rawEnts ?st1")
        case None
        with True Inr Suc.prems(1) show ?thesis by (simp add: Let_def)
      next
        case (Some p)
        obtain ro st2 where p: "p = (ro, st2)" by (cases p)
        show ?thesis
        proof (cases ro)
          case None
          with Some p True Inr Suc.prems(1) have run: "download_loop fuel getEntries sel logID upTo st2 = Some (r, st')"
            by (simp add: Let_def)
          from send_loop_inv [OF Some [unfolded p] inv1] None have "fetch_inv start st2" by simp
          from Suc.IH [OF run this] show ?thesis .
        next
          case (Some res)
          with \<open>send_loop fuel sel logID rawEnts ?st1 = Some p\<close> p True Inr Suc.prems(1)
          have "r = res" "st' = st2" by (auto simp: Let_def)
          with send_loop_inv [OF \<open>send_loop fuel sel logID rawEnts ?st1 = Some p\<close> [unfolded p] inv1] Some
          show ?thesis by simp
        qed
      qed
    qed
  qed
qed

lemma DownloadCTRangeToChannel_returned_ok:
  assumes "DownloadCTRangeToChannel fuel hasChan getEntries sel logID start upTo = Some (r, st)"
  shows "returned_ok start r st"
proof (cases hasChan)
  case True
  with assms download_loop_inv [OF _ fetch_inv_init] show ?thesis
    by (simp add: DownloadCTRangeToChannel_def)
next
  case False
  with assms have "r = Return start 0 (Some NoOutputChannel)" "st = fetch_init start"
    by (auto simp: DownloadCTRangeToChannel_def)
  then show ?thesis
    by (simp add: returned_ok_def counted_def fetch_init_def last_time_def consecutive_from_Nil)
qed

subsection \<open>More fuel does not change a result\<close>



subsection \<open>What Download saves\<close>

lemma unat_add_of_nat:
  assumes "unat (a :: uint64) + n < 2 ^ 64"
  shows "unat (a + of_nat n) = unat a + n"
proof -
  from assms have n: "n < 2 ^ 64" by simp
  then have u: "unat (of_nat n :: uint64) = n"
    by (simp add: unat_of_nat)
  with assms have "unat a + unat (of_nat n :: uint64) < 2 ^ LENGTH(64)" by simp
  then have "unat (a + of_nat n) = unat a + unat (of_nat n :: uint64)"
    by (simp only: unat_add_lem)
  with u show ?thesis by simp
qed

lemma finalize_MaxEntry: "MaxEntry (finalize toTime logObj i t) = i"
  by (simp add: finalize_def Let_def)

lemma finalize_LastEntryTime:
  "LastEntryTime (finalize toTime logObj i t) = (if t \<noteq> 0 then toTime t else LastEntryTime logObj)"
  by (simp add: finalize_def Let_def)

lemma run_pass_SavedD:
  assumes "run_pass fuel config w sth logObj = Some (Saved logObj' err, entries)"
  shows "\<exists>i t st. origCount config logObj \<noteq> TreeSize sth
           \<and> DownloadCTRangeToChannel fuel (HasChan w) (GetEntries w) (Select w) (LogID logObj)
                (origCount config logObj) (endPos config sth (origCount config logObj))
               = Some (Return i t err, st)
           \<and> logObj' = finalize (Uint64ToTimestamp w) logObj i t \<and> entries = sent st"
proof -
  let ?orig = "origCount config logObj"
  let ?run = "DownloadCTRangeToChannel fuel (HasChan w) (GetEntries w) (Select w) (LogID logObj)
                ?orig (endPos config sth ?orig)"
  from assms have ne: "?orig \<noteq> TreeSize sth"
    by (auto simp: run_pass_def Let_def split: if_splits)
  with assms obtain r st where run: "?run = Some (r, st)"
    by (cases ?run) (auto simp: run_pass_def Let_def)
  obtain i t e where r: "r = Return i t e" by (cases r)
  from assms ne run r have "e = err" "logObj' = finalize (Uint64ToTimestamp w) logObj i t"
    "entries = sent st"
    by (simp_all add: run_pass_def Let_def)
  with ne run r show ?thesis by blast
qed

lemma Download_SavedD:
  assumes "Download fuel config w = Some (Saved logObj' err, entries)"
  shows "\<exists>sth logObj. GetSTH w = Inr sth \<and> GetLogState w = Inr logObj
           \<and> run_pass fuel config w sth logObj = Some (Saved logObj' err, entries)"
  using assms
  by (auto simp: Download_def split: if_splits option.splits sum.splits)

section \<open>The saved cursor (C1)\<close>

text \<open>
  C1, as the code has it. The claim that the saved \<open>MaxEntry\<close> is never below the stored
  one fails when an offset is configured: the pass starts at the offset and
  \<open>logObj.MaxEntry = finalIndex\<close> overwrites the stored value whatever it was. Here the
  offset is 5, the limit 2 and the stored cursor 100; the pass sends the entries 5 and 6 and
  saves \<open>MaxEntry = 7\<close>.
\<close>

theorem saved_cursor_decreases_counterexample:
  "Download 5 (config_of 5 0 2) (example_world one_entry_feed always_sent (stored_log 100 0) 200)
     = Some (Saved (stored_log 7 1006) None, [entry_at 5 1005, entry_at 6 1006])
   \<and> MaxEntry (stored_log 7 1006) < MaxEntry (stored_log 100 0)"
  by code_simp

text \<open>
  C1 (amended): whenever a pass saves the log state, and the 64-bit index has not wrapped
  around (the start index plus the number of entries sent is below \<open>2^64\<close>), the saved
  \<open>MaxEntry\<close> is at least the index the pass started from: the stored \<open>MaxEntry\<close> when no
  offset is configured, the configured offset otherwise.
\<close>

theorem saved_cursor_not_below_start:
  assumes "Download fuel config w = Some (Saved logObj' err, entries)"
    and "GetLogState w = Inr logObj"
    and "unat (origCount config logObj) + length entries < 2 ^ 64"
  shows "(Offset config = 0 \<longrightarrow> MaxEntry logObj \<le> MaxEntry logObj')
       \<and> (0 < Offset config \<longrightarrow> Offset config \<le> MaxEntry logObj')"
proof -
  let ?orig = "origCount config logObj"
  from Download_SavedD [OF assms(1)] assms(2) obtain sth where
    "run_pass fuel config w sth logObj = Some (Saved logObj' err, entries)" by auto
  from run_pass_SavedD [OF this] obtain i t st where
    run: "DownloadCTRangeToChannel fuel (HasChan w) (GetEntries w) (Select w) (LogID logObj)
            ?orig (endPos config sth ?orig) = Some (Return i t err, st)"
    and fin: "logObj' = finalize (Uint64ToTimestamp w) logObj i t" and ent: "entries = sent st"
    by blast
  let ?n = "length (counted err (sent st))"
  from DownloadCTRangeToChannel_returned_ok [OF run] have i: "i = ?orig + of_nat ?n"
    by (simp add: returned_ok_def)
  have "?n \<le> length entries" by (simp add: counted_def ent)
  with assms(3) have "unat ?orig + ?n < 2 ^ 64" by simp
  from unat_add_of_nat [OF this] i have "unat ?orig \<le> unat i" by simp
  then have "?orig \<le> MaxEntry logObj'"
    by (simp add: word_le_nat_alt fin finalize_MaxEntry)
  then show ?thesis
    by (auto simp: origCount_def word_greater_zero_iff)
qed

theorem saved_cursor_not_below_start_witness:
  "Download 5 (config_of 0 0 2) (example_world one_entry_feed always_sent (stored_log 4 0) 10)
     = Some (Saved (stored_log 6 1005) None, [entry_at 4 1004, entry_at 5 1005])
   \<and> Offset (config_of 0 0 2) = 0
   \<and> MaxEntry (stored_log 4 0) \<le> MaxEntry (stored_log 6 1005)"
proof -
  let ?w = "example_world one_entry_feed always_sent (stored_log 4 0) 10"
  have run: "Download 5 (config_of 0 0 2) ?w
     = Some (Saved (stored_log 6 1005) None, [entry_at 4 1004, entry_at 5 1005])"
    by code_simp
  have st: "GetLogState ?w = Inr (stored_log 4 0)"
    by (simp add: example_world_def)
  have small: "unat (origCount (config_of 0 0 2) (stored_log 4 0))
                 + length [entry_at 4 1004, entry_at 5 1005] < 2 ^ 64"
    by (simp add: origCount_def config_of_def stored_log_def)
  have off: "Offset (config_of 0 0 2) = 0" by (simp add: config_of_def)
  from saved_cursor_not_below_start [OF run st small] off
  have "MaxEntry (stored_log 4 0) \<le> MaxEntry (stored_log 6 1005)" by simp
  with run off show ?thesis by simp
qed

section \<open>Index mismatch (C2, C3)\<close>




text \<open>
  C3, as the code has it. Since the comparison follows the send, the last entry sent by a
  pass that ends in an index mismatch carries whatever index the feed gave it. Here the
  feed answers the first window with the indices 0 and 5, and both entries are sent.
\<close>

theorem dispatched_gap_counterexample:
  "DownloadCTRangeToChannel 5 True skipping_feed always_sent 1 0 10
     = Some (Return 1 2000 (Some (IndexMismatch 1 5)),
             \<lparr>index = 1, lastTime = 2000, sent = [entry_at 0 1000, entry_at 5 2000],
              requests = [(0, 9)], selects = 2\<rparr>)
   \<and> map (\<lambda>ep. Index (Entry ep)) [entry_at 0 1000, entry_at 5 2000] = [0, 5]"
  by code_simp

text \<open>
  C3 (amended): when a pass returns, the entries it has sent, without the last one if the
  pass ended in an index mismatch, carry the indices \<open>start\<close>, \<open>start + 1\<close>, ... without gap
  or repetition, whatever the feed answered, and the index returned is \<open>start\<close> plus their
  number.
\<close>

theorem dispatched_indices_consecutive:
  assumes "DownloadCTRangeToChannel fuel hasChan getEntries sel logID start upTo
             = Some (Return i t e, st)"
  shows "map (\<lambda>ep. Index (Entry ep)) (counted e (sent st))
           = map (\<lambda>k. start + of_nat k) [0..<length (counted e (sent st))]
       \<and> i = start + of_nat (length (counted e (sent st)))"
  using DownloadCTRangeToChannel_returned_ok [OF assms]
  by (simp add: returned_ok_def consecutive_from_def)

theorem dispatched_indices_consecutive_witness:
  "DownloadCTRangeToChannel 12 True window_feed busy_workers 1 0 3
     = Some (Return 3 1002 None,
             \<lparr>index = 3, lastTime = 1002,
              sent = [entry_at 0 1000, entry_at 1 1001, entry_at 2 1002],
              requests = [(0, 2)], selects = 9\<rparr>)
   \<and> map (\<lambda>ep. Index (Entry ep)) [entry_at 0 1000, entry_at 1 1001, entry_at 2 1002]
       = map (\<lambda>k. 0 + of_nat k) [0..<3]"
proof -
  let ?st = "\<lparr>index = 3, lastTime = 1002,
              sent = [entry_at 0 1000, entry_at 1 1001, entry_at 2 1002],
              requests = [(0, 2)], selects = 9\<rparr>"
  have run: "DownloadCTRangeToChannel 12 True window_feed busy_workers 1 0 3
     = Some (Return 3 1002 None, ?st)"
    by code_simp
  have three: "[0..<length [entry_at 0 1000, entry_at 1 1001, entry_at 2 1002]] = [0..<3]"
    by code_simp
  from dispatched_indices_consecutive [OF run] run three show ?thesis
    by (simp add: counted_def del: upt_Suc)
qed

section \<open>A pass with a limit (C4)\<close>











section \<open>Persistence failures (C6)\<close>

lemma insertCTWorker_append:
  "insertCTWorker ins (xs @ ys) ws = insertCTWorker ins ys (insertCTWorker ins xs ws)"
  by (induction xs arbitrary: ws) (auto split: prod.splits option.splits simp: Let_def)

lemma insertCTWorker_attempted:
  "attempted (insertCTWorker ins eps ws) = attempted ws @ eps"
  by (induction eps arbitrary: ws) (auto split: prod.splits option.splits simp: Let_def)

lemma insertCTWorker_logged_mono:
  "set (logged ws) \<subseteq> set (logged (insertCTWorker ins eps ws))"
proof (induction eps arbitrary: ws)
  case Nil
  show ?case by simp
next
  case (Cons ep eps)
  obtain err db' where r: "ins (database ws) ep = (err, db')" by (cases "ins (database ws) ep")
  show ?case
  proof (cases err)
    case None
    with r Cons [of "ws\<lparr>database := db', attempted := attempted ws @ [ep]\<rparr>"] show ?thesis
      by (simp add: Let_def)
  next
    case (Some e)
    with r Cons [of "ws\<lparr>database := db', attempted := attempted ws @ [ep],
                      logged := logged ws @ [(Index (Entry ep), e)]\<rparr>"] show ?thesis
      by (simp add: Let_def)
  qed
qed

lemma insertCTWorker_logs_failure:
  assumes "fst (ins (database ws) ep) = Some e"
  shows "(Index (Entry ep), e) \<in> set (logged (insertCTWorker ins (ep # eps) ws))"
proof -
  obtain db' where r: "ins (database ws) ep = (Some e, db')"
    using assms by (cases "ins (database ws) ep") auto
  let ?ws2 = "ws\<lparr>database := db', attempted := attempted ws @ [ep],
                  logged := logged ws @ [(Index (Entry ep), e)]\<rparr>"
  have "(Index (Entry ep), e) \<in> set (logged ?ws2)" by simp
  then have "(Index (Entry ep), e) \<in> set (logged (insertCTWorker ins eps ?ws2))"
    using insertCTWorker_logged_mono [of ?ws2 ins eps] by blast
  with r show ?thesis by (simp add: Let_def)
qed

lemma insertCTWorker_failure_at:
  assumes "k < length eps"
    and "fst (ins (database (insertCTWorker ins (take k eps) ws)) (eps ! k)) = Some e"
  shows "(Index (Entry (eps ! k)), e) \<in> set (logged (insertCTWorker ins eps ws))"
proof -
  have "eps = take k eps @ (eps ! k) # drop (Suc k) eps"
    using assms(1) by (simp add: id_take_nth_drop)
  then have "insertCTWorker ins eps ws =
      insertCTWorker ins ((eps ! k) # drop (Suc k) eps) (insertCTWorker ins (take k eps) ws)"
    by (metis insertCTWorker_append)
  then show ?thesis
    using insertCTWorker_logs_failure
            [of ins "insertCTWorker ins (take k eps) ws" "eps ! k" e "drop (Suc k) eps"] assms(2)
    by simp
qed

text \<open>
  C6: a worker that receives the entries of a pass calls the insert for every one of them,
  in order, whatever the earlier inserts returned; every insert that fails is logged with
  the index of its entry; and the outcome of the pass, with the log state saved, is the one
  \<open>Download\<close> computes, in which the insert does not occur.
\<close>

theorem worker_continues_after_failure:
  assumes "pass_with_worker fuel config w ins d = Some (out, ws)"
  shows "\<exists>entries. Download fuel config w = Some (out, entries)
           \<and> attempted ws = entries
           \<and> (\<forall>k<length entries. \<forall>e.
                 fst (ins (database (insertCTWorker ins (take k entries) (worker_init d)))
                        (entries ! k)) = Some e
                 \<longrightarrow> (Index (Entry (entries ! k)), e) \<in> set (logged ws))"
proof -
  from assms obtain entries where d: "Download fuel config w = Some (out, entries)"
    and ws: "ws = insertCTWorker ins entries (worker_init d)"
    by (auto simp: pass_with_worker_def split: option.splits)
  have "attempted ws = entries"
    using ws by (simp add: insertCTWorker_attempted worker_init_def)
  moreover have "\<forall>k<length entries. \<forall>e.
                 fst (ins (database (insertCTWorker ins (take k entries) (worker_init d)))
                        (entries ! k)) = Some e
                 \<longrightarrow> (Index (Entry (entries ! k)), e) \<in> set (logged ws)"
    using ws insertCTWorker_failure_at by blast
  ultimately show ?thesis using d by blast
qed

theorem worker_continues_after_failure_witness:
  "pass_with_worker 5 (config_of 0 0 3)
       (example_world window_feed always_sent (stored_log 0 0) 10) failing_insert 0
     = Some (Saved (stored_log 3 1002) None,
             \<lparr>database = 3, attempted = [entry_at 0 1000, entry_at 1 1001, entry_at 2 1002],
              logged = [(1, ''duplicate'')]\<rparr>)
   \<and> fst (failing_insert
            (database (insertCTWorker failing_insert
               (take 1 [entry_at 0 1000, entry_at 1 1001, entry_at 2 1002]) (worker_init 0)))
            ([entry_at 0 1000, entry_at 1 1001, entry_at 2 1002] ! 1)) = Some ''duplicate''
   \<and> (Index (Entry ([entry_at 0 1000, entry_at 1 1001, entry_at 2 1002] ! 1)), ''duplicate'')
        \<in> set [(1, ''duplicate'')]"
proof -
  let ?w = "example_world window_feed always_sent (stored_log 0 0) 10"
  let ?es = "[entry_at 0 1000, entry_at 1 1001, entry_at 2 1002]"
  let ?ws = "\<lparr>database = 3 :: nat, attempted = ?es, logged = [(1 :: uint64, ''duplicate'')]\<rparr>"
  have run: "pass_with_worker 5 (config_of 0 0 3) ?w failing_insert 0
     = Some (Saved (stored_log 3 1002) None, ?ws)"
    by code_simp
  have fails: "fst (failing_insert
            (database (insertCTWorker failing_insert (take 1 ?es) (worker_init 0)))
            (?es ! 1)) = Some ''duplicate''"
    by code_simp
  from worker_continues_after_failure [OF run] obtain entries where
    d: "Download 5 (config_of 0 0 3) ?w = Some (Saved (stored_log 3 1002) None, entries)"
    and a: "attempted ?ws = entries"
    and l: "\<forall>k<length entries. \<forall>e.
                 fst (failing_insert (database (insertCTWorker failing_insert (take k entries) (worker_init 0)))
                        (entries ! k)) = Some e
                 \<longrightarrow> (Index (Entry (entries ! k)), e) \<in> set (logged ?ws)"
    by blast
  from a have e: "entries = ?es" by simp
  from l [unfolded e, rule_format, of 1 "''duplicate''"] fails
  have "(Index (Entry (?es ! 1)), ''duplicate'') \<in> set (logged ?ws)" by simp
  with run fails show ?thesis by simp
qed

section \<open>Both offsets set (C7)\<close>

text \<open>
  C7, as the code has it. \<open>processImporter\<close> starts the display and the workers first and
  tests the two offsets afterwards. Here one worker has been started when the
  configuration error is returned.
\<close>

theorem workers_started_before_check_counterexample:
  "processImporter 0 (config_of 7 9 0) 1 example_importer 0
     = Some (Some BothOffsets,
             [WgAdd, StartDisplay, StartWorker, DisplayClose, WgDone, CloseEntryChan], 0)
   \<and> StartWorker \<in> set [WgAdd, StartDisplay, StartWorker, DisplayClose, WgDone, CloseEntryChan]"
  by (simp add: processImporter_def config_of_def)

text \<open>
  C7 (amended): if both the offset and the byte offset are set, \<open>processImporter\<close> returns
  the configuration error for every importer, without any call to the importer (no seek, no
  entry read, the importer's state unchanged) and without sending an entry; the display and
  the \<open>NumThreads * NumCPU\<close> workers have been started before, and the deferred calls close
  the display and the channel.
\<close>

theorem processImporter_both_offsets:
  assumes "0 < Offset config" and "0 < OffsetByte config"
  shows "processImporter fuel config numCPU imp s =
           Some (Some BothOffsets,
                 [WgAdd, StartDisplay] @ replicate (nat (NumThreads config * numCPU)) StartWorker
                   @ [DisplayClose, WgDone, CloseEntryChan], s)"
  using assms by (simp add: processImporter_def)

theorem processImporter_both_offsets_witness:
  "0 < Offset (config_of 1 2 0) \<and> 0 < OffsetByte (config_of 1 2 0)
   \<and> processImporter 0 (config_of 1 2 0) 2 example_importer 0
       = Some (Some BothOffsets,
               [WgAdd, StartDisplay, StartWorker, StartWorker, DisplayClose, WgDone, CloseEntryChan],
               0)"
proof -
  have a: "0 < Offset (config_of 1 2 0)" and b: "0 < OffsetByte (config_of 1 2 0)"
    by (simp_all add: config_of_def)
  have n: "replicate (nat (NumThreads (config_of 1 2 0) * 2)) StartWorker = [StartWorker, StartWorker]"
    by (simp add: config_of_def numeral_2_eq_2)
  from processImporter_both_offsets [OF a b, of 0 2 example_importer 0] a b n
  show ?thesis by simp
qed

section \<open>Empty answers of the feed (C8)\<close>






section \<open>An offset beyond the tree size (C9)\<close>

lemma endPos_not_above:
  assumes "TreeSize sth < orig"
  shows "\<not> orig < endPos config sth orig"
proof (cases "Limit config > 0 \<and> TreeSize sth > orig + Limit config")
  case True
  then have "endPos config sth orig = orig + Limit config" by (simp add: endPos_def)
  moreover from True assms have "orig + Limit config < orig" by (auto intro: less_trans)
  ultimately show ?thesis by simp
next
  case False
  then have "endPos config sth orig = TreeSize sth" by (auto simp add: endPos_def)
  with assms show ?thesis by simp
qed

text \<open>
  C9: if the configured offset is greater than the tree size of the log (and the pass gets
  as far as the download: no byte offset, the collaborators answer, the channel exists),
  \<open>Download\<close> sends nothing, logs no error and saves the log state with \<open>MaxEntry\<close> set to
  the offset and nothing else changed.
\<close>

theorem Download_offset_beyond_tree:
  assumes "OffsetByte config = 0" and "NewClient w = None" and "GetSTH w = Inr sth"
    and "ParseURL w = None" and "GetLogState w = Inr logObj" and "HasChan w"
    and "TreeSize sth < Offset config"
  shows "Download fuel config w = Some (Saved (logObj\<lparr>MaxEntry := Offset config\<rparr>) None, [])"
proof -
  from assms(7) have pos: "0 < Offset config"
    by (cases "Offset config = 0") (auto simp: word_greater_zero_iff)
  then have orig: "origCount config logObj = Offset config"
    by (simp add: origCount_def)
  have ne: "Offset config \<noteq> TreeSize sth" using assms(7) by auto
  have stop: "\<not> index (fetch_init (Offset config)) < endPos config sth (Offset config)"
    using endPos_not_above [OF assms(7)] by (simp add: fetch_init_def)
  have "DownloadCTRangeToChannel fuel (HasChan w) (GetEntries w) (Select w) (LogID logObj)
          (Offset config) (endPos config sth (Offset config))
        = Some (Return (Offset config) 0 None, fetch_init (Offset config))"
    using assms(6) download_loop_done [OF stop]
    by (simp add: DownloadCTRangeToChannel_def fetch_init_def)
  then have "run_pass fuel config w sth logObj
        = Some (Saved (logObj\<lparr>MaxEntry := Offset config\<rparr>) None, [])"
    using orig ne by (simp add: run_pass_def finalize_def fetch_init_def)
  then show ?thesis
    using assms(1-5) by (simp add: Download_def)
qed

theorem Download_offset_beyond_tree_witness:
  "TreeSize \<lparr>TreeSize = 10, SthTimestamp = 0\<rparr> < Offset (config_of 20 0 0)
   \<and> Download 0 (config_of 20 0 0) (example_world one_entry_feed always_sent (stored_log 3 0) 10)
       = Some (Saved (stored_log 20 0) None, [])"
proof -
  let ?w = "example_world one_entry_feed always_sent (stored_log 3 0) 10"
  have h: "OffsetByte (config_of 20 0 0) = 0" "NewClient ?w = None"
    "GetSTH ?w = Inr \<lparr>TreeSize = 10, SthTimestamp = 0\<rparr>" "ParseURL ?w = None"
    "GetLogState ?w = Inr (stored_log 3 0)" "HasChan ?w"
    by (simp_all add: config_of_def example_world_def)
  have b: "TreeSize \<lparr>TreeSize = 10, SthTimestamp = 0\<rparr> < Offset (config_of 20 0 0)"
    by (simp add: config_of_def)
  from Download_offset_beyond_tree [OF h b, of 0] b show ?thesis
    by (simp add: stored_log_def config_of_def)
qed

section \<open>LastEntryTime (C10)\<close>

text \<open>
  C10: when \<open>Download\<close> saves the log state, \<open>MaxEntry\<close> is the index returned by
  \<open>DownloadCTRangeToChannel\<close>, and \<open>LastEntryTime\<close> is the converted time returned if that
  time is not 0 and the stored \<open>LastEntryTime\<close> otherwise. The time returned is the
  timestamp of the last entry sent, or 0 if none was sent: a pass whose last entry has the
  timestamp 0 leaves \<open>LastEntryTime\<close> as a pass that sent nothing does.
\<close>

theorem LastEntryTime_updated_iff_nonzero:
  assumes "Download fuel config w = Some (Saved logObj' err, entries)"
    and "GetLogState w = Inr logObj"
  shows "\<exists>sth i t st.
           GetSTH w = Inr sth
         \<and> DownloadCTRangeToChannel fuel (HasChan w) (GetEntries w) (Select w) (LogID logObj)
              (origCount config logObj) (endPos config sth (origCount config logObj))
             = Some (Return i t err, st)
         \<and> entries = sent st
         \<and> MaxEntry logObj' = i
         \<and> LastEntryTime logObj' = (if t \<noteq> 0 then Uint64ToTimestamp w t else LastEntryTime logObj)
         \<and> t = (if entries = [] then 0 else Timestamp (Entry (last entries)))
         \<and> (entries = [] \<or> Timestamp (Entry (last entries)) = 0
              \<longrightarrow> LastEntryTime logObj' = LastEntryTime logObj)"
proof -
  let ?orig = "origCount config logObj"
  from Download_SavedD [OF assms(1)] assms(2) obtain sth where sth: "GetSTH w = Inr sth"
    and "run_pass fuel config w sth logObj = Some (Saved logObj' err, entries)" by auto
  from run_pass_SavedD [OF this(2)] obtain i t st where
    run: "DownloadCTRangeToChannel fuel (HasChan w) (GetEntries w) (Select w) (LogID logObj)
            ?orig (endPos config sth ?orig) = Some (Return i t err, st)"
    and fin: "logObj' = finalize (Uint64ToTimestamp w) logObj i t" and ent: "entries = sent st"
    by blast
  from DownloadCTRangeToChannel_returned_ok [OF run] ent
  have t: "t = (if entries = [] then 0 else Timestamp (Entry (last entries)))"
    by (simp add: returned_ok_def last_time_def)
  have m: "MaxEntry logObj' = i" by (simp add: fin finalize_MaxEntry)
  have l: "LastEntryTime logObj' = (if t \<noteq> 0 then Uint64ToTimestamp w t else LastEntryTime logObj)"
    by (simp add: fin finalize_LastEntryTime)
  have "entries = [] \<or> Timestamp (Entry (last entries)) = 0
              \<longrightarrow> LastEntryTime logObj' = LastEntryTime logObj"
    using t l by auto
  with sth run ent t m l show ?thesis by blast
qed

theorem LastEntryTime_updated_iff_nonzero_witness:
  "Download 5 (config_of 0 0 2) (example_world zero_time_feed always_sent (stored_log 4 55) 10)
     = Some (Saved (stored_log 6 55) None, [entry_at 4 0, entry_at 5 0])
   \<and> Timestamp (Entry (last [entry_at 4 0, entry_at 5 0])) = 0
   \<and> LastEntryTime (stored_log 6 55) = LastEntryTime (stored_log 4 55)"
proof -
  let ?w = "example_world zero_time_feed always_sent (stored_log 4 55) 10"
  have run: "Download 5 (config_of 0 0 2) ?w
     = Some (Saved (stored_log 6 55) None, [entry_at 4 0, entry_at 5 0])"
    by code_simp
  have st: "GetLogState ?w = Inr (stored_log 4 55)"
    by (simp add: example_world_def)
  have z: "Timestamp (Entry (last [entry_at 4 0, entry_at 5 0])) = 0"
    by (simp add: entry_at_def)
  from LastEntryTime_updated_iff_nonzero [OF run st] z
  have "LastEntryTime (stored_log 6 55) = LastEntryTime (stored_log 4 55)" by auto
  with run z show ?thesis by simp
qed

end
